theory Spec2Isabelle
  imports Main "HOL-Library.Sublist" "HOL-Library.Multiset"
begin


section \<open>JavaScript string and array primitives used by the endpoint\<close>

text \<open>
  Strings are character lists. The patterns the endpoint looks for are ASCII, so
  comparing code units and comparing bytes agree on them.
\<close>

definition endsWith :: "string \<Rightarrow> string \<Rightarrow> bool" where
  \<comment> \<open>\<^verbatim>\<open>s.endsWith(suf)\<close>\<close>
  "endsWith s suf =
     (length suf \<le> length s \<and> drop (length s - length suf) s = suf)"

fun replaceFirst :: "string \<Rightarrow> string \<Rightarrow> string \<Rightarrow> string" where
  \<comment> \<open>\<^verbatim>\<open>s.replace(pat, rep)\<close> with a string pattern: only the leftmost occurrence
      of \<open>pat\<close> is replaced. The replacements used here contain no dollar sign, so
      no replacement pattern is expanded.\<close>
  "replaceFirst [] pat rep = (if pat = [] then rep else [])"
| "replaceFirst (c # cs) pat rep =
     (if take (length pat) (c # cs) = pat then rep @ drop (length pat) (c # cs)
      else c # replaceFirst cs pat rep)"

fun indexOf :: "'a list \<Rightarrow> 'a \<Rightarrow> int" where
  \<comment> \<open>\<^verbatim>\<open>xs.indexOf(x)\<close>: the first position of \<open>x\<close>, or -1\<close>
  "indexOf [] x = - 1"
| "indexOf (y # ys) x =
     (if y = x then 0
      else (let i = indexOf ys x in if i < 0 then - 1 else i + 1))"

definition filterIndexed :: "('a \<Rightarrow> nat \<Rightarrow> bool) \<Rightarrow> 'a list \<Rightarrow> 'a list" where
  \<comment> \<open>\<^verbatim>\<open>xs.filter((x, index) => p(x, index))\<close>\<close>
  "filterIndexed p xs =
     map fst (filter (\<lambda>(x, i). p x i) (zip xs [0 ..< length xs]))"

definition slice :: "'a list \<Rightarrow> nat \<Rightarrow> nat \<Rightarrow> 'a list" where
  \<comment> \<open>\<^verbatim>\<open>xs.slice(b, e)\<close> for non-negative \<open>b\<close> and \<open>e\<close>\<close>
  "slice xs b e = take (e - b) (drop b xs)"

fun filterBoolean :: "'a option list \<Rightarrow> 'a list" where
  \<comment> \<open>\<^verbatim>\<open>xs.filter(Boolean)\<close> on a list whose entries are objects or \<^verbatim>\<open>false\<close>\<close>
  "filterBoolean [] = []"
| "filterBoolean (None # xs) = filterBoolean xs"
| "filterBoolean (Some x # xs) = x # filterBoolean xs"

definition ceilDiv :: "nat \<Rightarrow> nat \<Rightarrow> nat" where
  \<comment> \<open>\<^verbatim>\<open>Math.ceil(n / k)\<close> for a non-negative integer \<open>n\<close> and a positive integer \<open>k\<close>\<close>
  "ceilDiv n k = (n + k - 1) div k"

fun showNat :: "nat \<Rightarrow> string" where
  \<comment> \<open>a non-negative integer inside a template literal\<close>
  "showNat n =
     (if n < 10 then [char_of (48 + n)]
      else showNat (n div 10) @ [char_of (48 + n mod 10)])"

declare showNat.simps [simp del]


section \<open>Admission: the \<^verbatim>\<open>/extract/\<close> handler up to the batches\<close>

text \<open>
  The constants of the batch coordinator (the variant of
  \<^verbatim>\<open>endpoints/extract.js\<close> that runs several Chrome instances per request).
\<close>

definition maxChromeInstances :: nat where
  "maxChromeInstances = 3"

definition maxBatchSize :: nat where
  "maxBatchSize = 75"

record url_item =
  url :: string
  isThumbTransparent :: "bool option"

definition removeDuplicateURLs :: "string list \<Rightarrow> string list" where
  \<comment> \<open>\<^verbatim>\<open>urls.filter((url, index) => urls.indexOf(url) === index)\<close>\<close>
  "removeDuplicateURLs urls =
     filterIndexed (\<lambda>url index. indexOf urls url = int index) urls"

definition thumbMatch :: "string \<Rightarrow> (string \<times> string) option" where
  \<comment> \<open>\<^verbatim>\<open>s.match(/\.bfd_thumb\.(jpg|png)$/)\<close>: the matched text and the group,
      or no match. The pattern is anchored at the end of the string.\<close>
  "thumbMatch s =
     (if endsWith s ''.bfd_thumb.jpg'' then Some (''.bfd_thumb.jpg'', ''jpg'')
      else if endsWith s ''.bfd_thumb.png'' then Some (''.bfd_thumb.png'', ''png'')
      else None)"

definition convertURL :: "string \<Rightarrow> url_item option" where
  \<comment> \<open>the callback of \<^verbatim>\<open>urls.map\<close>; \<open>None\<close> is the \<^verbatim>\<open>false\<close> it returns\<close>
  "convertURL bfdOrThumbURL =
     (if endsWith bfdOrThumbURL ''.bfd''
      then Some \<lparr>url = bfdOrThumbURL, isThumbTransparent = None\<rparr>
      else (case thumbMatch bfdOrThumbURL of
              None \<Rightarrow> None
            | Some (m0, m1) \<Rightarrow>
                Some \<lparr>url = replaceFirst bfdOrThumbURL m0 ''.bfd'',
                      isThumbTransparent = Some (m1 = ''png'')\<rparr>))"

definition admittedURLs :: "string list \<Rightarrow> url_item list" where
  \<comment> \<open>duplicates removed, then converted, then the invalid entries removed\<close>
  "admittedURLs urls = filterBoolean (map convertURL (removeDuplicateURLs urls))"

text \<open>
  \<^verbatim>\<open>randomAlphaString\<close> comes from \<^verbatim>\<open>../lib\<close>, which is not among the sources:
  the strings it returns are a parameter \<open>rnd\<close>, the k-th call returning \<open>rnd k\<close>.
\<close>

definition instanceID :: "(nat \<Rightarrow> string) \<Rightarrow> nat \<Rightarrow> string" where
  \<comment> \<open>\<^verbatim>\<open>`${batchID} ${index + 1} ${randomAlphaString(3)}`\<close>\<close>
  "instanceID rnd index = rnd 0 @ '' '' @ showNat (index + 1) @ '' '' @ rnd (index + 1)"

definition batches :: "(nat \<Rightarrow> string) \<Rightarrow> 'a list \<Rightarrow> (string \<times> 'a list) list" where
  \<comment> \<open>the object \<^verbatim>\<open>batches\<close>, as its entries in insertion order (the keys contain
      spaces, so none is an array index and \<^verbatim>\<open>Object.entries\<close> keeps that order)\<close>
  "batches rnd urls =
     (let batchSize = ceilDiv (length urls) maxChromeInstances
      in filter (\<lambda>(ident, urlsInBatch). urlsInBatch \<noteq> [])
           (map (\<lambda>index. (instanceID rnd index,
                           slice urls (index * batchSize) ((index + 1) * batchSize)))
                [0 ..< maxChromeInstances]))"


section \<open>The item pipeline (\<^verbatim>\<open>extract-data.js\<close>)\<close>

subsection \<open>Opening one project\<close>

type_synonym err = string

record thumbnail =
  thumbURL :: string
  projectWidth :: nat
  projectHeight :: nat
  projectText :: string
  sectionID :: string
  version :: nat
  sourceTemplateID :: string
  transparencyMismatch :: "bool option"

datatype open_result = FontsToSwap "string list" | Thumbnail thumbnail

text \<open>
  What the page does during one call of \<^verbatim>\<open>openProjectAndGenerateThumbnail\<close>: the
  Render Host is an external collaborator, so each call into the page is an oracle.
  \<^item> \<open>getBefunkyBfd\<close>: the BFD fails to download or to open (or the wait for loading
    rejects), or the project opens and the version \<^verbatim>\<open>parseInt(bfdObject.version) || 1\<close>
    is known;
  \<^item> \<open>swappedFonts\<close>: \<^verbatim>\<open>Object.keys(BFN.ParseBFD.swappedFonts)\<close>;
  \<^item> \<open>projectVO\<close>: text, width, height, section and source template of the project;
  \<^item> \<open>createThumbnail\<close>: the thumbnail cannot be made (or another call into the page
    after the font check rejects), or the blob is a JPEG or not, with the transparency
    mismatch;
  \<^item> \<open>downloadPath\<close>: \<^verbatim>\<open>download.path()\<close>, null when the download failed;
  \<^item> \<open>saveAndReset\<close>: the exception of \<^verbatim>\<open>fs.copyFileSync\<close> or of the call that resets
    the app, when one of them throws.
\<close>

record page_run =
  getBefunkyBfd :: "err + nat"
  swappedFonts :: "string list"
  projectVO :: "string \<times> nat \<times> nat \<times> string \<times> string option"
  createThumbnail :: "err + bool \<times> bool"
  downloadPath :: "string option"
  saveAndReset :: "err option"

definition fileNameOf :: "string \<Rightarrow> string" where
  \<comment> \<open>\<^verbatim>\<open>url.split('/').pop()\<close>\<close>
  "fileNameOf u = rev (takeWhile (\<lambda>c. c \<noteq> CHR ''/'') (rev u))"

definition openProjectAndGenerateThumbnail :: "page_run \<Rightarrow> string \<Rightarrow> err + open_result" where
  \<comment> \<open>\<open>Inl\<close> is the exception the async function ends with\<close>
  "openProjectAndGenerateThumbnail pg bfdUrl =
     (if bfdUrl = [] then Inl ''BFD path/URL missing''
      else (case getBefunkyBfd pg of
              Inl e \<Rightarrow> Inl e
            | Inr bfdVersion \<Rightarrow>
                if swappedFonts pg \<noteq> [] then Inr (FontsToSwap (swappedFonts pg))
                else (case createThumbnail pg of
                        Inl e \<Rightarrow> Inl e
                      | Inr (isJpeg, mismatch) \<Rightarrow>
                          (case downloadPath pg of
                             None \<Rightarrow> Inl ''Failed to download file''
                           | Some path \<Rightarrow>
                               (case saveAndReset pg of
                                  Some e \<Rightarrow> Inl e
                                | None \<Rightarrow>
                                    (case projectVO pg of
                                       (txt, w, h, section, template) \<Rightarrow>
                                         Inr (Thumbnail
                                           \<lparr>thumbURL = ''/thumbnails/'' @
                                               replaceFirst (fileNameOf bfdUrl) ''.bfd''
                                                 (''.bfd_thumb_v1.'' @ (if isJpeg then ''jpg'' else ''png'')),
                                            projectWidth = w,
                                            projectHeight = h,
                                            projectText = txt,
                                            sectionID = section,
                                            version = bfdVersion,
                                            sourceTemplateID = (case template of None \<Rightarrow> [] | Some t \<Rightarrow> t),
                                            transparencyMismatch = Some mismatch\<rparr>)))))))"

subsection \<open>The queue\<close>

text \<open>
  A project is the object that moves through the lists. \<open>oid\<close> is the identity of
  the object (\<^verbatim>\<open>loadingProjects.indexOf(project)\<close> compares objects): the position
  of its entry in \<^verbatim>\<open>urlsToProcess\<close>. \<open>index\<close> is the property of that name, which
  \<^verbatim>\<open>delete p.index\<close> removes at the end; \<open>rendered\<close> holds the fields that
  \<^verbatim>\<open>Object.assign(project, result)\<close> copies.
\<close>

record project = url_item +
  oid :: nat
  index :: "nat option"
  sizeInKB :: "nat option"
  error :: "err option"
  fontsToSwap :: "string list option"
  rendered :: "thumbnail option"

record report =
  result :: string
  opened :: "project list"
  missing :: "project list"
  fontSwap :: "project list"
  unopened :: "project list"

text \<open>
  The variables of the closure. \<open>timers\<close> counts the start-up calls
  \<^verbatim>\<open>setTimeout(preloadNextURL, i * 200)\<close> that have not fired yet, \<open>openingCalls\<close> the
  calls of \<^verbatim>\<open>openProjectAndGenerateThumbnail\<close> that have not settled, \<open>urlCount\<close> is
  \<^verbatim>\<open>urlsToProcess.length\<close>, \<open>sessionCloses\<close> counts \<^verbatim>\<open>browser.close()\<close>, and
  \<open>resolvedWith\<close> is the value the returned promise resolved with. The log lines
  and the watchdog that reports a long preload change none of these variables and
  are left out.
\<close>

record pipeline =
  urlCount :: nat
  timers :: nat
  queuedProjects :: "project list"
  loadingProjects :: "project list"
  preloadedProjects :: "project list"
  missingProjects :: "project list"
  fontSwapProjects :: "project list"
  unopenedProjects :: "project list"
  openedProjects :: "project list"
  isOpeningProject :: bool
  openingCalls :: "project list"
  sessionCloses :: nat
  resolvedWith :: "report option"

text \<open>
  The host of one session: \<open>launchError\<close> is the time and the exception of the
  start-up, when launching the browser, opening the page or waiting for its first
  section rejects;
  \<open>request k a\<close> is what \<^verbatim>\<open>BeFunky.request\<close> calls back
  with on attempt \<open>a\<close> (0 or 1) for the project \<open>k\<close>, an error or the size of the blob;
  \<open>page k\<close> is the page's behaviour while that project is opened. The two texts are
  the outputs of \<^verbatim>\<open>toSeconds\<close>, floating-point formatting that is left to the host.
\<close>

record host =
  launchError :: "(nat \<times> err) option"
  request :: "nat \<Rightarrow> nat \<Rightarrow> err + nat"
  page :: "nat \<Rightarrow> page_run"
  totalSeconds :: string
  perBFDSeconds :: string

definition inParallel :: nat where
  "inParallel = 5"

definition queueOf :: "url_item list \<Rightarrow> project list" where
  \<comment> \<open>\<^verbatim>\<open>urlsToProcess.map(({ url, isThumbTransparent }, index) => ...)\<close>\<close>
  "queueOf urlsToProcess =
     map (\<lambda>(item, i).
            \<lparr>url = url item, isThumbTransparent = isThumbTransparent item,
             oid = i, index = Some (i + 1), sizeInKB = None, error = None,
             fontsToSwap = None, rendered = None\<rparr>)
         (zip urlsToProcess [0 ..< length urlsToProcess])"

definition init :: "url_item list \<Rightarrow> pipeline" where
  "init urlsToProcess =
     \<lparr>urlCount = length urlsToProcess, timers = inParallel,
      queuedProjects = queueOf urlsToProcess, loadingProjects = [],
      preloadedProjects = [], missingProjects = [], fontSwapProjects = [],
      unopenedProjects = [], openedProjects = [], isOpeningProject = False,
      openingCalls = [], sessionCloses = 0, resolvedWith = None\<rparr>"

definition preloadRequest :: "host \<Rightarrow> nat \<Rightarrow> (err + nat) \<times> nat" where
  \<comment> \<open>the promise of \<^verbatim>\<open>page.$eval\<close> in \<^verbatim>\<open>preloadNextURL\<close>: how it settles, and how
      many times \<^verbatim>\<open>BeFunky.request\<close> was called\<close>
  "preloadRequest h k =
     (case request h k 0 of
        Inr blobSize \<Rightarrow> (Inr blobSize, 1)
      | Inl e \<Rightarrow>
          (case request h k 1 of
             Inr secondSize \<Rightarrow> (Inr secondSize, 2)
           | Inl secondError \<Rightarrow> (Inl secondError, 2)))"

definition roundKB :: "nat \<Rightarrow> nat" where
  \<comment> \<open>\<^verbatim>\<open>Math.round(blobSize / 1024)\<close>\<close>
  "roundKB blobSize = (blobSize + 512) div 1024"

fun takeOut :: "nat \<Rightarrow> project list \<Rightarrow> (project \<times> project list) option" where
  \<comment> \<open>the project with that identity, and the list after
      \<^verbatim>\<open>splice(indexOf(project), 1)\<close>\<close>
  "takeOut k [] = None"
| "takeOut k (p # ps) =
     (if oid p = k then Some (p, ps)
      else (case takeOut k ps of None \<Rightarrow> None | Some (q, qs) \<Rightarrow> Some (q, p # qs)))"

definition preloadNextURL :: "pipeline \<Rightarrow> pipeline" where
  "preloadNextURL s =
     (case queuedProjects s of
        [] \<Rightarrow> s
      | project # rest \<Rightarrow>
          if inParallel \<le> length (loadingProjects s) then s
          else s\<lparr>queuedProjects := rest,
                 loadingProjects := loadingProjects s @ [project]\<rparr>)"

definition deleteIndex :: "project \<Rightarrow> project" where
  "deleteIndex p = p\<lparr>index := None\<rparr>"

definition resultText :: "host \<Rightarrow> pipeline \<Rightarrow> string" where
  "resultText h s =
     ''Generated thumbnails for '' @ showNat (length (openedProjects s)) @ '' / '' @
     showNat (urlCount s) @ '' BFDs in '' @ totalSeconds h @ ''s '' @
     (if openedProjects s \<noteq> [] then ''('' @ perBFDSeconds h @ ''s / BFD)'' else [])"

definition finish :: "host \<Rightarrow> pipeline \<Rightarrow> pipeline" where
  \<comment> \<open>the branch "every project has been attempted" of \<^verbatim>\<open>openNextProject\<close>; a promise
      keeps the first value it is resolved with\<close>
  "finish h s =
     (let s' = s\<lparr>missingProjects := map deleteIndex (missingProjects s),
                  fontSwapProjects := map deleteIndex (fontSwapProjects s),
                  unopenedProjects := map deleteIndex (unopenedProjects s),
                  openedProjects := map deleteIndex (openedProjects s),
                  sessionCloses := sessionCloses s + 1\<rparr>
      in (case resolvedWith s of
            Some r \<Rightarrow> s'
          | None \<Rightarrow>
              s'\<lparr>resolvedWith :=
                   Some \<lparr>result = resultText h s,
                         opened = openedProjects s',
                         missing = missingProjects s',
                         fontSwap = fontSwapProjects s',
                         unopened = unopenedProjects s'\<rparr>\<rparr>))"

definition openNextProject :: "host \<Rightarrow> pipeline \<Rightarrow> pipeline" where
  \<comment> \<open>up to its first \<^verbatim>\<open>await\<close>; what follows the await of the open call is
      \<open>openSettled\<close>\<close>
  "openNextProject h s =
     (if isOpeningProject s then s
      else if preloadedProjects s = [] \<and> queuedProjects s = [] \<and> loadingProjects s = []
      then finish h s
      else (case preloadedProjects s of
              [] \<Rightarrow> s
            | project # rest \<Rightarrow>
                s\<lparr>preloadedProjects := rest, isOpeningProject := True,
                   openingCalls := openingCalls s @ [project]\<rparr>))"

definition preloadSettled :: "host \<Rightarrow> nat \<Rightarrow> pipeline \<Rightarrow> pipeline option" where
  \<comment> \<open>the chain \<^verbatim>\<open>.then(...).catch(...).then(...)\<close> when the preload of the project
      \<open>k\<close> settles; its callbacks are consecutive microtasks, taken here as one step.
      A preload in flight is always in \<^verbatim>\<open>loadingProjects\<close>; \<open>None\<close> says that no
      preload of \<open>k\<close> is in flight.\<close>
  "preloadSettled h k s =
     (case takeOut k (loadingProjects s) of
        None \<Rightarrow> None
      | Some (project, rest) \<Rightarrow>
          (let s1 = (case fst (preloadRequest h k) of
                       Inr blobSize \<Rightarrow>
                         s\<lparr>loadingProjects := rest,
                            preloadedProjects := preloadedProjects s @
                              [project\<lparr>sizeInKB := Some (roundKB blobSize)\<rparr>]\<rparr>
                     | Inl e \<Rightarrow>
                         s\<lparr>loadingProjects := rest,
                            missingProjects := missingProjects s @
                              [project\<lparr>error := Some e\<rparr>]\<rparr>)
           in Some (preloadNextURL (openNextProject h s1))))"

definition openSettled :: "host \<Rightarrow> nat \<Rightarrow> pipeline \<Rightarrow> pipeline option" where
  \<comment> \<open>\<^verbatim>\<open>openNextProject\<close> from the settlement of its open call to its end\<close>
  "openSettled h k s =
     (case takeOut k (openingCalls s) of
        None \<Rightarrow> None
      | Some (project, rest) \<Rightarrow>
          (let r = openProjectAndGenerateThumbnail (page h k) (url project);
               s1 = (case r of
                       Inl e \<Rightarrow> s\<lparr>openingCalls := rest,
                                  unopenedProjects := unopenedProjects s @
                                    [project\<lparr>error := Some e\<rparr>]\<rparr>
                     | Inr res \<Rightarrow> s\<lparr>openingCalls := rest\<rparr>);
               s2 = s1\<lparr>isOpeningProject := False\<rparr>;
               s3 = (case r of
                       Inr (FontsToSwap fonts) \<Rightarrow>
                         s2\<lparr>fontSwapProjects := fontSwapProjects s2 @
                              [project\<lparr>fontsToSwap := Some fonts\<rparr>]\<rparr>
                     | _ \<Rightarrow> s2);
               s4 = (case r of
                       Inr (Thumbnail t) \<Rightarrow>
                         if thumbURL t \<noteq> []
                         then s3\<lparr>openedProjects := openedProjects s3 @
                                   [project\<lparr>rendered := Some t\<rparr>]\<rparr>
                         else s3
                     | _ \<Rightarrow> s3)
           in Some (openNextProject h s4)))"

datatype event = Timer | PreloadSettled nat | OpenSettled nat

definition step :: "host \<Rightarrow> event \<Rightarrow> pipeline \<Rightarrow> pipeline option" where
  \<comment> \<open>one callback of the event loop, run to completion; \<open>None\<close> when the event
      cannot happen in that state\<close>
  "step h ev s =
     (case ev of
        Timer \<Rightarrow>
          if timers s = 0 then None
          else Some (preloadNextURL (s\<lparr>timers := timers s - 1\<rparr>))
      | PreloadSettled k \<Rightarrow> preloadSettled h k s
      | OpenSettled k \<Rightarrow> openSettled h k s)"

fun run :: "host \<Rightarrow> event list \<Rightarrow> pipeline \<Rightarrow> pipeline option" where
  "run h [] s = Some s"
| "run h (ev # evs) s = (case step h ev s of None \<Rightarrow> None | Some s' \<Rightarrow> run h evs s')"

text \<open>
  How a promise stands: pending, resolved with a value, or rejected with an
  exception at some time (\<^verbatim>\<open>Promise.all\<close> passes on the rejection that came first).
\<close>

datatype 'a promise = Pending | Resolved 'a | Rejected nat err

definition extractData :: "host \<Rightarrow> event list \<Rightarrow> url_item list \<Rightarrow> report promise" where
  \<comment> \<open>the promise the module returns, after the events \<open>evs\<close> of its queue: rejected
      when the start-up fails, pending until the queue resolves it (an event list that
      cannot happen gives no resolution either)\<close>
  "extractData h evs urlsToProcess =
     (case launchError h of
        Some (t, e) \<Rightarrow> Rejected t e
      | None \<Rightarrow>
          (case run h evs (init urlsToProcess) of
             None \<Rightarrow> Pending
           | Some s \<Rightarrow> (case resolvedWith s of None \<Rightarrow> Pending | Some r \<Rightarrow> Resolved r)))"


section \<open>The endpoint: running the batches and reporting\<close>

fun firstRejection :: "'a promise list \<Rightarrow> (nat \<times> err) option" where
  \<comment> \<open>the rejection that came first in time (of two at the same time, the one of
      the promise listed first)\<close>
  "firstRejection [] = None"
| "firstRejection (p # ps) =
     (case p of
        Rejected t e \<Rightarrow>
          (case firstRejection ps of
             None \<Rightarrow> Some (t, e)
           | Some (t', e') \<Rightarrow> if t' < t then Some (t', e') else Some (t, e))
      | _ \<Rightarrow> firstRejection ps)"

fun resolvedValues :: "'a promise list \<Rightarrow> 'a list option" where
  \<comment> \<open>the values in the order of the promises, when all of them have resolved\<close>
  "resolvedValues [] = Some []"
| "resolvedValues (p # ps) =
     (case p of
        Resolved x \<Rightarrow>
          (case resolvedValues ps of None \<Rightarrow> None | Some xs \<Rightarrow> Some (x # xs))
      | _ \<Rightarrow> None)"

definition promiseAll :: "'a promise list \<Rightarrow> 'a list promise" where
  \<comment> \<open>\<^verbatim>\<open>Promise.all\<close>: rejected as soon as one promise is, with that rejection;
      resolved when all of them are\<close>
  "promiseAll ps =
     (case firstRejection ps of
        Some (t, e) \<Rightarrow> Rejected t e
      | None \<Rightarrow> (case resolvedValues ps of Some xs \<Rightarrow> Resolved xs | None \<Rightarrow> Pending))"

fun join :: "string \<Rightarrow> string list \<Rightarrow> string" where
  \<comment> \<open>\<^verbatim>\<open>xs.join(sep)\<close>\<close>
  "join sep [] = []"
| "join sep [x] = x"
| "join sep (x # y # ys) = x @ sep @ join sep (y # ys)"

definition appendFileSync :: "err option \<Rightarrow> string \<Rightarrow> string \<Rightarrow> err + string" where
  \<comment> \<open>\<^verbatim>\<open>fs.appendFileSync\<close> on a file with that content: it throws, or the file grows\<close>
  "appendFileSync failure content data =
     (case failure of Some e \<Rightarrow> Inl e | None \<Rightarrow> Inr (content @ data))"

text \<open>
  The state of the module that outlives a request: the flag \<^verbatim>\<open>isRunning\<close> and the
  two CSV files.
\<close>

record server =
  isRunning :: bool
  fontsCsv :: string
  transparencyCsv :: string

text \<open>
  What one request meets: the random strings, how the promise of each \<^verbatim>\<open>runBatch\<close>
  ends (by instance and batch), whether the timer fired before they all settled, the
  two outputs of \<^verbatim>\<open>toSeconds\<close>, and whether a write to either CSV file throws.
\<close>

record request_env =
  rnd :: "nat \<Rightarrow> string"
  runBatch :: "string \<Rightarrow> url_item list \<Rightarrow> report promise"
  timedOut :: bool
  elapsed :: string
  elapsedPerBFD :: string
  fontsWriteError :: "err option"
  transparencyWriteError :: "err option"

datatype body = ErrorBody string | ReportBody report

datatype handler_end = Replied nat body | Threw err | Awaiting

definition admission :: "bool \<Rightarrow> string list \<Rightarrow> (nat \<times> string) option" where
  \<comment> \<open>the two guards of the batch coordinator: the status and the error text of the
      rejection, or \<open>None\<close> when the request goes on\<close>
  "admission running urls =
     (if running then Some (503, ''Already running, please wait.'')
      else if maxChromeInstances * maxBatchSize < length urls
      then Some (400, ''Too many URLs. Limit = '' @ showNat (maxChromeInstances * maxBatchSize))
      else None)"

definition admissionSingle :: "nat \<Rightarrow> string list \<Rightarrow> (nat \<times> string) option" where
  \<comment> \<open>the two guards of \<^verbatim>\<open>endpoints/extract.js\<close>, which runs one Chrome instance per
      request and counts the active ones\<close>
  "admissionSingle activeChromeInstances urls =
     (if maxChromeInstances \<le> activeChromeInstances
      then Some (503, ''Too many active Chrome instances. Limit = '' @ showNat maxChromeInstances)
      else if maxBatchSize < length urls
      then Some (400, ''Too many URLs. Limit = '' @ showNat maxBatchSize)
      else None)"

definition combineResults :: "report list \<Rightarrow> report" where
  "combineResults allResults =
     \<lparr>result = [],
      opened = concat (map opened allResults),
      missing = concat (map missing allResults),
      fontSwap = concat (map fontSwap allResults),
      unopened = concat (map unopened allResults)\<rparr>"

definition batchResultText :: "request_env \<Rightarrow> nat \<Rightarrow> nat \<Rightarrow> nat \<Rightarrow> string" where
  "batchResultText w openedLength urlsLength instances =
     ''Generated thumbnails for '' @ showNat openedLength @ '' / '' @ showNat urlsLength @
     '' BFDs in '' @ elapsed w @ ''s '' @
     (if openedLength \<noteq> 0 then ''('' @ elapsedPerBFD w @ ''s / BFD)'' else []) @
     '' using '' @ showNat instances @ '' Chrome instance(s)''"

definition markTimedOut :: "bool \<Rightarrow> string \<Rightarrow> string" where
  \<comment> \<open>\<^verbatim>\<open>if (timedOut) result.result = 'Timed out. ' + result.result\<close>\<close>
  "markTimedOut fired txt = (if fired then ''Timed out. '' @ txt else txt)"

fun collectFonts :: "project list \<Rightarrow> err + string list" where
  \<comment> \<open>\<^verbatim>\<open>fonts = [...fonts, ...fontsToSwap]\<close> over the projects; spreading a missing
      property throws\<close>
  "collectFonts [] = Inr []"
| "collectFonts (p # ps) =
     (case fontsToSwap p of
        None \<Rightarrow> Inl ''TypeError: fontsToSwap is not iterable''
      | Some fonts \<Rightarrow>
          (case collectFonts ps of Inl e \<Rightarrow> Inl e | Inr others \<Rightarrow> Inr (fonts @ others)))"

definition hasMismatch :: "project \<Rightarrow> bool" where
  \<comment> \<open>\<^verbatim>\<open>project.transparencyMismatch\<close> is truthy\<close>
  "hasMismatch p =
     (case rendered p of None \<Rightarrow> False | Some t \<Rightarrow> transparencyMismatch t = Some True)"

definition thumbURLOf :: "project \<Rightarrow> string" where
  "thumbURLOf p = (case rendered p of None \<Rightarrow> [] | Some t \<Rightarrow> thumbURL t)"

definition deleteMismatch :: "project \<Rightarrow> project" where
  \<comment> \<open>\<^verbatim>\<open>delete project.transparencyMismatch\<close>\<close>
  "deleteMismatch p =
     p\<lparr>rendered := map_option (\<lambda>t. t\<lparr>transparencyMismatch := None\<rparr>) (rendered p)\<rparr>"

definition writeLogs :: "request_env \<Rightarrow> server \<Rightarrow> report \<Rightarrow> server \<times> (err + report)" where
  \<comment> \<open>the two blocks "Add missing fonts to CSV" and "Add transparency mismatches to
      CSV": the server with the files as they are left, and the exception that ends
      the handler or the report that is about to be sent\<close>
  "writeLogs w st res =
     (case collectFonts (fontSwap res) of
        Inl e \<Rightarrow> (st, Inl e)
      | Inr fonts \<Rightarrow>
          (case (if fonts \<noteq> []
                 then appendFileSync (fontsWriteError w) (fontsCsv st)
                        (join [CHR 0x0A] fonts @ [CHR 0x0A])
                 else Inr (fontsCsv st)) of
             Inl e \<Rightarrow> (st, Inl e)
           | Inr fontsFile \<Rightarrow>
               (let st1 = st\<lparr>fontsCsv := fontsFile\<rparr>;
                    transparencyMismatches = map thumbURLOf (filter hasMismatch (opened res));
                    res1 = res\<lparr>opened := map deleteMismatch (opened res)\<rparr>
                in (case (if transparencyMismatches \<noteq> []
                          then appendFileSync (transparencyWriteError w) (transparencyCsv st1)
                                 (join [CHR 0x0A] transparencyMismatches @ [CHR 0x0A])
                          else Inr (transparencyCsv st1)) of
                      Inl e \<Rightarrow> (st1, Inl e)
                    | Inr mismatchFile \<Rightarrow>
                        (st1\<lparr>transparencyCsv := mismatchFile\<rparr>, Inr res1)))))"

definition extractEndpoint :: "request_env \<Rightarrow> server \<Rightarrow> string list \<Rightarrow> server \<times> handler_end" where
  \<comment> \<open>the handler of \<^verbatim>\<open>POST /extract/\<close> in the batch coordinator: the server it leaves
      and how it ends (a reply, an exception, or still awaiting the batches)\<close>
  "extractEndpoint w st rawURLs =
     (case admission (isRunning st) rawURLs of
        Some (status, message) \<Rightarrow> (st, Replied status (ErrorBody message))
      | None \<Rightarrow>
          (let st1 = st\<lparr>isRunning := True\<rparr>;
               urls = admittedURLs rawURLs;
               promises = map (\<lambda>(ident, urlsInBatch). runBatch w ident urlsInBatch)
                              (batches (rnd w) urls)
           in (case promiseAll promises of
                 Pending \<Rightarrow> (st1, Awaiting)
               | Rejected t e \<Rightarrow> (st1, Threw e)
               | Resolved allResults \<Rightarrow>
                   (let combinedResults = combineResults allResults;
                        res = combinedResults
                          \<lparr>result := markTimedOut (timedOut w)
                             (batchResultText w (length (opened combinedResults))
                                (length urls) (length allResults))\<rparr>
                    in (case writeLogs w st1 res of
                          (st2, Inl e) \<Rightarrow> (st2, Threw e)
                        | (st2, Inr sentResult) \<Rightarrow>
                            (st2\<lparr>isRunning := False\<rparr>, Replied 200 (ReportBody sentResult)))))))"


section \<open>The deadline of a batch\<close>

text \<open>
  \<^verbatim>\<open>batchTerminations[instanceID]\<close> starts as the empty object and is passed to
  \<^verbatim>\<open>extractData\<close> as a fourth argument. \<^verbatim>\<open>extract-data.js\<close> takes three parameters and
  never reads or writes that object, so the only \<^verbatim>\<open>exit\<close> an object ever gets is the
  empty function that \<^verbatim>\<open>runBatch\<close> stores once the promise of its pipeline has resolved
  (\<open>settled\<close>). \<open>timerFired\<close> is the variable \<^verbatim>\<open>timedOut\<close> of the handler, \<open>timerArmed\<close>
  says that the timer has neither fired nor been cleared, and \<open>uncaught\<close> is an
  exception thrown inside the callback of the timer.
\<close>

datatype exit_fn = NoExit | EmptyExit

record batch_run =
  exitFn :: exit_fn
  settled :: bool

record coordinator =
  batchRuns :: "(string \<times> batch_run) list"
  timerFired :: bool
  timerArmed :: bool
  uncaught :: "err option"

datatype coord_event = Resolves string | Deadline

definition startBatches :: "string list \<Rightarrow> coordinator" where
  \<comment> \<open>after \<^verbatim>\<open>setTimeout\<close> and the calls of \<^verbatim>\<open>runBatch\<close>; with no batch at all
      \<^verbatim>\<open>Promise.all([])\<close> resolves at once and the timer is cleared\<close>
  "startBatches instanceIDs =
     \<lparr>batchRuns = map (\<lambda>ident. (ident, \<lparr>exitFn = NoExit, settled = False\<rparr>)) instanceIDs,
      timerFired = False, timerArmed = (instanceIDs \<noteq> []), uncaught = None\<rparr>"

fun callExits :: "(string \<times> batch_run) list \<Rightarrow> err option" where
  \<comment> \<open>\<^verbatim>\<open>Object.values(batchTerminations).forEach(termination => termination.exit())\<close>:
      the empty function does nothing; calling a property that is not there throws
      and ends the loop\<close>
  "callExits [] = None"
| "callExits ((ident, b) # rest) =
     (case exitFn b of
        NoExit \<Rightarrow> Some ''TypeError: termination.exit is not a function''
      | EmptyExit \<Rightarrow> callExits rest)"

definition updateRun :: "string \<Rightarrow> (batch_run \<Rightarrow> batch_run) \<Rightarrow> (string \<times> batch_run) list \<Rightarrow> (string \<times> batch_run) list" where
  "updateRun ident f runs = map (\<lambda>(i, b). (i, if i = ident then f b else b)) runs"

definition unsettled :: "(string \<times> batch_run) list \<Rightarrow> string list" where
  "unsettled runs = map fst (filter (\<lambda>(i, b). \<not> settled b) runs)"

definition coordStep :: "coord_event \<Rightarrow> coordinator \<Rightarrow> coordinator option" where
  \<comment> \<open>\<open>Resolves\<close>: the promise of the pipeline resolves and \<^verbatim>\<open>runBatch\<close> goes on past its
      \<^verbatim>\<open>await\<close>; when it was the last one, \<^verbatim>\<open>Promise.all\<close> resolves and the handler
      clears the timer. \<open>Deadline\<close>: the callback of \<^verbatim>\<open>setTimeout\<close>, which sets
      \<^verbatim>\<open>timedOut\<close> and then calls every \<^verbatim>\<open>exit\<close>. \<open>None\<close> when the event cannot happen.\<close>
  "coordStep ev c =
     (case ev of
        Resolves ident \<Rightarrow>
          if ident \<in> set (unsettled (batchRuns c))
          then (let runs = updateRun ident (\<lambda>b. b\<lparr>settled := True, exitFn := EmptyExit\<rparr>) (batchRuns c)
                in Some (c\<lparr>batchRuns := runs,
                           timerArmed := (timerArmed c \<and> unsettled runs \<noteq> [])\<rparr>))
          else None
      | Deadline \<Rightarrow>
          if timerArmed c
          then Some (c\<lparr>timerFired := True, timerArmed := False,
                       uncaught := callExits (batchRuns c)\<rparr>)
          else None)"

fun coordRun :: "coord_event list \<Rightarrow> coordinator \<Rightarrow> coordinator option" where
  "coordRun [] c = Some c"
| "coordRun (ev # evs) c = (case coordStep ev c of None \<Rightarrow> None | Some c' \<Rightarrow> coordRun evs c')"


section \<open>Invariants of the pipeline and of the coordinator\<close>

text \<open>
  Where every project is: the identity and the reference of each object held by one
  of the lists, as a multiset. No callback changes it.
\<close>

definition itemOf :: "project \<Rightarrow> nat \<times> url_item" where
  "itemOf p = (oid p, \<lparr>url = url p, isThumbTransparent = isThumbTransparent p\<rparr>)"



definition serial :: "pipeline \<Rightarrow> bool" where
  "serial s =
     (length (openingCalls s) \<le> 1 \<and> (isOpeningProject s \<longleftrightarrow> openingCalls s \<noteq> []))"




text \<open>
  What the lists say about the preload of a project: a project in
  \<^verbatim>\<open>missingProjects\<close> carries the error the preload promise rejected with, every
  project past the preload carries the size it resolved with.
\<close>

definition failedTwice :: "host \<Rightarrow> project \<Rightarrow> bool" where
  "failedTwice h p =
     (case fst (preloadRequest h (oid p)) of
        Inl e \<Rightarrow> error p = Some e
      | Inr blobSize \<Rightarrow> False)"

definition loaded :: "host \<Rightarrow> project \<Rightarrow> bool" where
  "loaded h p =
     (case fst (preloadRequest h (oid p)) of
        Inl e \<Rightarrow> False
      | Inr blobSize \<Rightarrow> sizeInKB p = Some (roundKB blobSize))"


text \<open>
  What holds in every state the coordinator can reach: a pipeline has the empty
  \<^verbatim>\<open>exit\<close> exactly when its promise has resolved, and the timer is armed only while
  a pipeline is still running.
\<close>

definition coordInv :: "coordinator \<Rightarrow> bool" where
  "coordInv c =
     ((\<forall>(ident, b) \<in> set (batchRuns c). settled b = (exitFn b = EmptyExit)) \<and>
      (timerArmed c \<longrightarrow> unsettled (batchRuns c) \<noteq> []))"


section \<open>Example requests\<close>

text \<open>Ten valid references, for the end-to-end example of the specification.\<close>

definition tenURLs :: "string list" where
  "tenURLs = [''0.bfd'', ''1.bfd'', ''2.bfd'', ''3.bfd'', ''4.bfd'',
              ''5.bfd'', ''6.bfd'', ''7.bfd'', ''8.bfd'', ''9.bfd'']"

text \<open>
  Six references, of which one is a duplicate and one is invalid: two batches of
  two. In the first session the first project loads at the second attempt and
  opens, the second fails to load twice; in the second session one project needs a
  font swap and the other cannot be rendered.
\<close>

definition examplePage :: page_run where
  "examplePage = \<lparr>getBefunkyBfd = Inr 3, swappedFonts = [],
                   projectVO = (''hello'', 800, 600, ''designer'', None),
                   createThumbnail = Inr (True, False), downloadPath = Some ''/tmp/download'',
                   saveAndReset = None\<rparr>"

definition exampleHost :: host where
  "exampleHost =
     \<lparr>launchError = None,
      request = (\<lambda>k a. if k = 0 then (if a = 0 then Inl ''reset'' else Inr 2000)
                        else Inl (if a = 0 then ''timeout 1'' else ''timeout 2'')),
      page = (\<lambda>k. examplePage),
      totalSeconds = ''9.0'', perBFDSeconds = ''9.0''\<rparr>"



definition exampleShard :: "url_item list" where
  "exampleShard = [\<lparr>url = ''x/a.bfd'', isThumbTransparent = None\<rparr>,
                   \<lparr>url = ''b.bfd'', isThumbTransparent = Some True\<rparr>]"

definition exampleEvents :: "event list" where
  "exampleEvents = [Timer, Timer, PreloadSettled 1, PreloadSettled 0, Timer, OpenSettled 0]"








text \<open>Two references, for a request that is still at work when its timer fires.\<close>

definition lateRequest :: "string list" where
  "lateRequest = [''a.bfd'', ''b.bfd'']"

text \<open>Servers and environments for the examples of this section.\<close>

definition idleServer :: server where
  "idleServer = \<lparr>isRunning = False, fontsCsv = [], transparencyCsv = []\<rparr>"

definition busyServer :: server where
  "busyServer = \<lparr>isRunning = True, fontsCsv = [], transparencyCsv = []\<rparr>"

definition fontHost :: host where
  "fontHost =
     \<lparr>launchError = None, request = (\<lambda>k a. Inr 4096),
      page = (\<lambda>k. \<lparr>getBefunkyBfd = Inr 3, swappedFonts = [''Arial'', ''Futura''],
                     projectVO = (''hello'', 800, 600, ''designer'', None),
                     createThumbnail = Inr (True, False),
                     downloadPath = Some ''/tmp/download'', saveAndReset = None\<rparr>),
      totalSeconds = ''7.5'', perBFDSeconds = []\<rparr>"

definition fontWorld :: request_env where
  "fontWorld =
     \<lparr>rnd = (\<lambda>k. ''abc''),
      runBatch = (\<lambda>ident urlsInBatch.
                    extractData fontHost [Timer, PreloadSettled 0, OpenSettled 0] urlsInBatch),
      timedOut = False, elapsed = ''7.5'', elapsedPerBFD = [],
      fontsWriteError = None, transparencyWriteError = None\<rparr>"

definition fontReport :: report where
  "fontReport =
     \<lparr>result = ''Generated thumbnails for 0 / 1 BFDs in 7.5s '',
      opened = [], missing = [],
      fontSwap = [\<lparr>url = ''c.bfd'', isThumbTransparent = None, oid = 0, index = None,
                   sizeInKB = Some 4, error = None,
                   fontsToSwap = Some [''Arial'', ''Futura''], rendered = None\<rparr>],
      unopened = []\<rparr>"

definition crashWorld :: request_env where
  "crashWorld =
     fontWorld\<lparr>runBatch := (\<lambda>ident urlsInBatch.
        extractData (fontHost\<lparr>launchError := Some (3, ''browserType.launch: Failed to launch chromium'')\<rparr>)
          [] urlsInBatch)\<rparr>"


section \<open>Facts about admission\<close>

subsection \<open>Removing duplicates\<close>

lemma indexOf_neg_iff: "indexOf xs x < 0 \<longleftrightarrow> x \<notin> set xs"
  by (induction xs) (auto simp: Let_def)

lemma indexOf_nonneg_iff: "0 \<le> indexOf xs x \<longleftrightarrow> x \<in> set xs"
  using indexOf_neg_iff [of xs x] by auto

lemma indexOf_less_length: "indexOf xs x < int (length xs)"
  by (induction xs) (auto simp: Let_def)

lemma indexOf_notin: "x \<notin> set xs \<Longrightarrow> indexOf xs x = - 1"
  by (induction xs) (auto simp: Let_def)

lemma indexOf_in: "x \<in> set xs \<Longrightarrow> 0 \<le> indexOf xs x"
  by (induction xs) (auto simp: Let_def)

lemma indexOf_append:
  "indexOf (xs @ ys) x =
     (if x \<in> set xs then indexOf xs x
      else if x \<in> set ys then int (length xs) + indexOf ys x else - 1)"
  by (induction xs) (auto simp: Let_def indexOf_notin dest: indexOf_in)

lemma filterIndexed_Nil: "filterIndexed p [] = []"
  by (simp add: filterIndexed_def)

lemma filterIndexed_snoc:
  "filterIndexed p (xs @ [x]) = filterIndexed p xs @ (if p x (length xs) then [x] else [])"
  by (simp add: filterIndexed_def)

lemma filterIndexed_cong:
  assumes "\<And>x i. x \<in> set xs \<Longrightarrow> p x i = q x i"
  shows "filterIndexed p xs = filterIndexed q xs"
proof -
  have "filter (\<lambda>(x, i). p x i) (zip xs [0 ..< length xs])
      = filter (\<lambda>(x, i). q x i) (zip xs [0 ..< length xs])"
    by (rule filter_cong) (auto dest: set_zip_leftD simp: assms)
  then show ?thesis by (simp add: filterIndexed_def)
qed

lemma subseq_filterIndexed: "subseq (filterIndexed p xs) xs"
proof -
  have "subseq (map fst (filter (\<lambda>(x, i). p x i) (zip xs [0 ..< length xs])))
               (map fst (zip xs [0 ..< length xs]))"
    by (rule subseq_map) simp
  then show ?thesis by (simp add: filterIndexed_def)
qed

lemma removeDuplicateURLs_Nil: "removeDuplicateURLs [] = []"
  by (simp add: removeDuplicateURLs_def filterIndexed_Nil)

lemma removeDuplicateURLs_snoc:
  "removeDuplicateURLs (urls @ [u]) =
     removeDuplicateURLs urls @ (if u \<in> set urls then [] else [u])"
proof -
  have old: "filterIndexed (\<lambda>url index. indexOf (urls @ [u]) url = int index) urls
           = filterIndexed (\<lambda>url index. indexOf urls url = int index) urls"
    by (rule filterIndexed_cong) (simp add: indexOf_append)
  have new: "indexOf (urls @ [u]) u = int (length urls) \<longleftrightarrow> u \<notin> set urls"
    using indexOf_less_length [of urls u] by (simp add: indexOf_append)
  show ?thesis
    unfolding removeDuplicateURLs_def filterIndexed_snoc old new by simp
qed

lemma set_removeDuplicateURLs: "set (removeDuplicateURLs urls) = set urls"
  by (induction urls rule: rev_induct)
     (auto simp: removeDuplicateURLs_Nil removeDuplicateURLs_snoc)

lemma distinct_removeDuplicateURLs: "distinct (removeDuplicateURLs urls)"
  by (induction urls rule: rev_induct)
     (auto simp: removeDuplicateURLs_Nil removeDuplicateURLs_snoc set_removeDuplicateURLs)

lemma subseq_removeDuplicateURLs: "subseq (removeDuplicateURLs urls) urls"
  by (simp add: removeDuplicateURLs_def subseq_filterIndexed)

lemma removeDuplicateURLs_remdups:
  "removeDuplicateURLs urls = rev (remdups (rev urls))"
  by (induction urls rule: rev_induct)
     (auto simp: removeDuplicateURLs_Nil removeDuplicateURLs_snoc)

subsection \<open>The batches\<close>

lemma upt_3: "[0 ..< 3] = [0, 1, 2]"
  by (simp add: upt_rec)

lemma batches_unfold:
  "batches rs urls =
     filter (\<lambda>(ident, urlsInBatch). urlsInBatch \<noteq> [])
       [(instanceID rs 0, take (ceilDiv (length urls) 3) urls),
        (instanceID rs 1, take (ceilDiv (length urls) 3) (drop (ceilDiv (length urls) 3) urls)),
        (instanceID rs 2, take (ceilDiv (length urls) 3) (drop (2 * ceilDiv (length urls) 3) urls))]"
  by (simp add: batches_def maxChromeInstances_def slice_def upt_3 Let_def)

lemma ceilDiv3_cover: "n \<le> 3 * ceilDiv n 3"
  unfolding ceilDiv_def by arith

lemma concat_filter_nonempty:
  "concat (map snd (filter (\<lambda>(ident, b). b \<noteq> []) ps)) = concat (map snd ps)"
  by (induction ps) auto

lemma three_takes:
  assumes "length xs \<le> 3 * b"
  shows "take b xs @ take b (drop b xs) @ take b (drop (2 * b) xs) = xs"
proof -
  have "take b xs @ take b (drop b xs) @ take b (drop (2 * b) xs) = take (b + (b + b)) xs"
    by (simp add: take_add mult_2 add.commute)
  also have "\<dots> = xs" using assms by simp
  finally show ?thesis .
qed

lemma concat_batches: "concat (map snd (batches rs urls)) = urls"
  unfolding batches_unfold concat_filter_nonempty
  by (simp add: three_takes ceilDiv3_cover)

lemma batch_sizes:
  "map (\<lambda>(ident, b). length b) (batches rs urls) =
     filter (\<lambda>k. 0 < k)
       [min (ceilDiv (length urls) 3) (length urls),
        min (ceilDiv (length urls) 3) (length urls - ceilDiv (length urls) 3),
        min (ceilDiv (length urls) 3) (length urls - 2 * ceilDiv (length urls) 3)]"
  unfolding batches_unfold by (auto simp: min_def)

lemma batch_sizes_10:
  assumes "length urls = 10"
  shows "map (\<lambda>(ident, b). length b) (batches rs urls) = [4, 4, 2]"
  unfolding batch_sizes by (simp add: assms ceilDiv_def)

lemma batches_nonempty: "(ident, b) \<in> set (batches rs urls) \<Longrightarrow> b \<noteq> []"
  by (auto simp: batches_def Let_def)

lemma batches_le: "(ident, b) \<in> set (batches rs urls) \<Longrightarrow> length b \<le> ceilDiv (length urls) 3"
  unfolding batches_unfold by (auto split: if_splits)

lemma length_batches: "length (batches rs urls) \<le> 3"
  unfolding batches_unfold by simp

lemma batches_full:
  assumes "Suc i < length (batches rs urls)"
  shows "length (snd (batches rs urls ! i)) = ceilDiv (length urls) 3"
proof -
  let ?b = "ceilDiv (length urls) 3"
  let ?n = "length urls"
  have cover: "?n \<le> 3 * ?b" by (rule ceilDiv3_cover)
  consider "?n = 0" | "0 < ?n" "?n \<le> ?b" | "?b < ?n" "?n \<le> 2 * ?b" | "2 * ?b < ?n"
    by linarith
  then show ?thesis
  proof cases
    case 1
    then show ?thesis using assms unfolding batches_unfold by simp
  next
    case 2
    then show ?thesis using assms unfolding batches_unfold by auto
  next
    case 3
    then show ?thesis using assms unfolding batches_unfold
      by (cases i) (auto simp: min_def)
  next
    case 4
    then show ?thesis using assms cover unfolding batches_unfold
      by (cases i; cases "i - 1") (auto simp: min_def)
  qed
qed

lemma showNat_digit: "n < 10 \<Longrightarrow> showNat n = [char_of (48 + n)]"
  by (simp add: showNat.simps)

lemma distinct_instanceIDs:
  "distinct (map fst (batches rs urls))"
proof -
  have "distinct [instanceID rs 0, instanceID rs 1, instanceID rs 2]"
    by (simp add: instanceID_def showNat_digit)
  then have "distinct (map fst [(instanceID rs 0, a), (instanceID rs 1, b), (instanceID rs 2, c)])" for a b c :: "'a list"
    by simp
  then show ?thesis
    unfolding batches_unfold by (intro distinct_map_filter)
qed

subsection \<open>Converting the references\<close>

lemma endsWith_append: "endsWith (stem @ suf) suf"
  by (simp add: endsWith_def)

lemma endsWith_iff: "endsWith s suf \<longleftrightarrow> (\<exists>stem. s = stem @ suf)"
proof
  assume "endsWith s suf"
  then have "s = take (length s - length suf) s @ suf"
    by (metis append_take_drop_id endsWith_def)
  then show "\<exists>stem. s = stem @ suf" ..
next
  assume "\<exists>stem. s = stem @ suf"
  then show "endsWith s suf" by (auto simp: endsWith_append)
qed

lemma convertURL_bfd:
  "endsWith s ''.bfd'' \<Longrightarrow> convertURL s = Some \<lparr>url = s, isThumbTransparent = None\<rparr>"
  by (simp add: convertURL_def)

lemma convertURL_dropped:
  "\<not> endsWith s ''.bfd'' \<Longrightarrow> \<not> endsWith s ''.bfd_thumb.jpg'' \<Longrightarrow>
   \<not> endsWith s ''.bfd_thumb.png'' \<Longrightarrow> convertURL s = None"
  by (simp add: convertURL_def thumbMatch_def)

lemma replaceFirst_at_end:
  assumes "pat \<noteq> []"
    and "\<And>k. k < length stem \<Longrightarrow> take (length pat) (drop k (stem @ pat)) \<noteq> pat"
  shows "replaceFirst (stem @ pat) pat rep = stem @ rep"
  using assms(2)
proof (induction stem)
  case Nil
  with assms(1) show ?case by (cases pat) auto
next
  case (Cons c stem)
  have here: "take (length pat) ((c # stem) @ pat) \<noteq> pat"
    using Cons.prems [of 0] by simp
  have later: "take (length pat) (drop k (stem @ pat)) \<noteq> pat" if "k < length stem" for k
    using Cons.prems [of "Suc k"] that by simp
  show ?case using here Cons.IH [OF later] by simp
qed

lemma convertURL_thumb_png:
  assumes "\<And>k. k < length stem \<Longrightarrow>
             take 14 (drop k (stem @ ''.bfd_thumb.png'')) \<noteq> ''.bfd_thumb.png''"
  shows "convertURL (stem @ ''.bfd_thumb.png'') =
           Some \<lparr>url = stem @ ''.bfd'', isThumbTransparent = Some True\<rparr>"
proof -
  have r: "replaceFirst (stem @ ''.bfd_thumb.png'') ''.bfd_thumb.png'' ''.bfd'' = stem @ ''.bfd''"
  proof (rule replaceFirst_at_end)
    show "''.bfd_thumb.png'' \<noteq> []" by simp
  next
    fix k assume k: "k < length stem"
    have len: "length ''.bfd_thumb.png'' = 14" by simp
    show "take (length ''.bfd_thumb.png'') (drop k (stem @ ''.bfd_thumb.png'')) \<noteq> ''.bfd_thumb.png''"
      unfolding len using assms [OF k] .
  qed
  have "\<not> endsWith (stem @ ''.bfd_thumb.png'') ''.bfd''"
    and "\<not> endsWith (stem @ ''.bfd_thumb.png'') ''.bfd_thumb.jpg''"
    by (simp_all add: endsWith_def)
  then show ?thesis
    by (simp add: convertURL_def thumbMatch_def endsWith_append r)
qed

lemma convertURL_thumb_jpg:
  assumes "\<And>k. k < length stem \<Longrightarrow>
             take 14 (drop k (stem @ ''.bfd_thumb.jpg'')) \<noteq> ''.bfd_thumb.jpg''"
  shows "convertURL (stem @ ''.bfd_thumb.jpg'') =
           Some \<lparr>url = stem @ ''.bfd'', isThumbTransparent = Some False\<rparr>"
proof -
  have r: "replaceFirst (stem @ ''.bfd_thumb.jpg'') ''.bfd_thumb.jpg'' ''.bfd'' = stem @ ''.bfd''"
  proof (rule replaceFirst_at_end)
    show "''.bfd_thumb.jpg'' \<noteq> []" by simp
  next
    fix k assume k: "k < length stem"
    have len: "length ''.bfd_thumb.jpg'' = 14" by simp
    show "take (length ''.bfd_thumb.jpg'') (drop k (stem @ ''.bfd_thumb.jpg'')) \<noteq> ''.bfd_thumb.jpg''"
      unfolding len using assms [OF k] .
  qed
  have "\<not> endsWith (stem @ ''.bfd_thumb.jpg'') ''.bfd''"
    by (simp add: endsWith_def)
  then show ?thesis
    by (simp add: convertURL_def thumbMatch_def endsWith_append r)
qed

lemma convertURL_examples:
  "convertURL ''foo.bfd'' = Some \<lparr>url = ''foo.bfd'', isThumbTransparent = None\<rparr>"
  "convertURL ''foo.bfd_thumb.png'' = Some \<lparr>url = ''foo.bfd'', isThumbTransparent = Some True\<rparr>"
  "convertURL ''foo.bfd_thumb.jpg'' = Some \<lparr>url = ''foo.bfd'', isThumbTransparent = Some False\<rparr>"
  "convertURL ''foo.xyz'' = None"
  by (simp_all add: convertURL_def thumbMatch_def endsWith_def)

text \<open>
  Claim C4. A reference ending in \<^verbatim>\<open>.bfd\<close> is kept as it is with no hint
  (\<open>convertURL_bfd\<close>), a reference that is neither a design nor a thumbnail name is
  dropped (\<open>convertURL_dropped\<close>), and \<^verbatim>\<open>foo.bfd_thumb.png\<close> becomes \<^verbatim>\<open>foo.bfd\<close> with
  the hint (\<open>convertURL_thumb_png\<close>, \<open>convertURL_thumb_jpg\<close>) as long as the matched
  text does not occur earlier in the reference. When it does, \<^verbatim>\<open>replace\<close> rewrites
  that earlier occurrence, not the suffix the pattern matched: the reference below
  keeps its thumbnail suffix and is still handed to the pipeline.
\<close>

theorem convertURL_replaces_first_occurrence:
  "convertURL ''a.bfd_thumb.png/b.bfd_thumb.png'' =
     Some \<lparr>url = ''a.bfd/b.bfd_thumb.png'', isThumbTransparent = Some True\<rparr>"
  by (simp add: convertURL_def thumbMatch_def endsWith_def)

subsection \<open>The admitted batch\<close>

lemma removeDuplicateURLs_AAB: "A \<noteq> B \<Longrightarrow> removeDuplicateURLs [A, A, B] = [A, B]"
  using removeDuplicateURLs_snoc [of "[A, A]" B] removeDuplicateURLs_snoc [of "[A]" A]
        removeDuplicateURLs_snoc [of "[]" A]
  by (simp add: removeDuplicateURLs_Nil)

text \<open>
  Claim C3, as amended. Duplicates are removed by the exact raw string, before the
  references are converted: the result has no duplicate, holds exactly the strings
  submitted, in their original order, an entry being dropped exactly when the same
  string came earlier; \<^verbatim>\<open>[A, A, B]\<close> with two different valid references gives a
  batch of size 2.
\<close>

theorem removeDuplicateURLs_first_occurrence:
  "distinct (removeDuplicateURLs urls) \<and>
   set (removeDuplicateURLs urls) = set urls \<and>
   subseq (removeDuplicateURLs urls) urls \<and>
   removeDuplicateURLs (urls @ [u]) =
     removeDuplicateURLs urls @ (if u \<in> set urls then [] else [u]) \<and>
   (A \<noteq> B \<and> convertURL A \<noteq> None \<and> convertURL B \<noteq> None \<longrightarrow>
      length (admittedURLs [A, A, B]) = 2)"
  by (auto simp: distinct_removeDuplicateURLs set_removeDuplicateURLs
                 subseq_removeDuplicateURLs removeDuplicateURLs_snoc
                 removeDuplicateURLs_AAB admittedURLs_def)

text \<open>The theorem of C3 at \<^verbatim>\<open>['a.bfd', 'a.bfd', 'b.bfd_thumb.jpg']\<close>.\<close>

theorem removeDuplicateURLs_first_occurrence_witness:
  "''a.bfd'' \<noteq> ''b.bfd_thumb.jpg'' \<and> convertURL ''a.bfd'' \<noteq> None \<and>
   convertURL ''b.bfd_thumb.jpg'' \<noteq> None \<and>
   length (admittedURLs [''a.bfd'', ''a.bfd'', ''b.bfd_thumb.jpg'']) = 2 \<and>
   removeDuplicateURLs ([''a.bfd'', ''a.bfd''] @ [''a.bfd'']) = removeDuplicateURLs [''a.bfd'', ''a.bfd'']"
  using removeDuplicateURLs_first_occurrence
          [of "[''a.bfd'', ''a.bfd'']" "''a.bfd''" "''a.bfd''" "''b.bfd_thumb.jpg''"]
  by (simp add: convertURL_def thumbMatch_def endsWith_def)

text \<open>
  Claim C3 as stated fails: a design reference and the thumbnail name of the same
  design are different strings, so both are kept and the batch holds the same
  design reference twice.
\<close>

theorem admittedURLs_same_reference_twice:
  "map url (admittedURLs [''a.bfd'', ''a.bfd_thumb.png'']) = [''a.bfd'', ''a.bfd''] \<and>
   convertURL ''a.bfd'' = Some \<lparr>url = ''a.bfd'', isThumbTransparent = None\<rparr> \<and>
   convertURL ''a.bfd_thumb.png'' = Some \<lparr>url = ''a.bfd'', isThumbTransparent = Some True\<rparr> \<and>
   \<not> distinct (map url (admittedURLs [''a.bfd'', ''a.bfd_thumb.png'']))"
  by code_simp

text \<open>
  Claim C2, as amended. The admitted list is cut, in its original order, into at
  most \<open>maxChromeInstances\<close> consecutive batches: the batches concatenated are the
  list again (nothing lost, nothing duplicated, nothing reordered), no batch is
  empty, every batch but the last has exactly \<open>ceil(N / 3)\<close> entries and the last
  one at most that many, and the instance names differ. Ten references give batches
  of 4, 4 and 2 entries.
\<close>

theorem batches_split:
  "concat (map snd (batches rs urls)) = urls \<and>
   length (batches rs urls) \<le> maxChromeInstances \<and>
   distinct (map fst (batches rs urls)) \<and>
   (\<forall>(ident, urlsInBatch) \<in> set (batches rs urls).
      urlsInBatch \<noteq> [] \<and> length urlsInBatch \<le> ceilDiv (length urls) maxChromeInstances) \<and>
   (\<forall>i. Suc i < length (batches rs urls) \<longrightarrow>
      length (snd (batches rs urls ! i)) = ceilDiv (length urls) maxChromeInstances) \<and>
   (length urls = 10 \<longrightarrow>
      map (\<lambda>(ident, urlsInBatch). length urlsInBatch) (batches rs urls) = [4, 4, 2])"
  using batches_nonempty [of _ _ rs urls] batches_le [of _ _ rs urls]
  by (auto simp: concat_batches length_batches distinct_instanceIDs batches_full
                 batch_sizes_10 maxChromeInstances_def)

text \<open>The theorem of C2 at the ten references.\<close>

theorem batches_split_witness:
  "length (admittedURLs tenURLs) = 10 \<and>
   map (\<lambda>(ident, urlsInBatch). length urlsInBatch)
       (batches (\<lambda>k. ''abc'') (admittedURLs tenURLs)) = [4, 4, 2] \<and>
   concat (map snd (batches (\<lambda>k. ''abc'') (admittedURLs tenURLs))) = admittedURLs tenURLs \<and>
   length (snd (batches (\<lambda>k. ''abc'') (admittedURLs tenURLs) ! 0)) = 4"
proof -
  have ten: "length (admittedURLs tenURLs) = 10" by code_simp
  have three: "Suc 0 < length (batches (\<lambda>k. ''abc'') (admittedURLs tenURLs))" by code_simp
  have four: "ceilDiv 10 maxChromeInstances = 4" by code_simp
  show ?thesis
    using batches_split [of "\<lambda>k. ''abc''" "admittedURLs tenURLs"] ten three four by simp
qed

text \<open>
  Claim C2 as stated fails: ten references are not split into batches of sizes
  4, 3 and 3.
\<close>

theorem batches_ten_not_4_3_3:
  "length (admittedURLs tenURLs) = 10 \<and>
   map (\<lambda>(ident, urlsInBatch). length urlsInBatch)
       (batches (\<lambda>k. ''abc'') (admittedURLs tenURLs)) = [4, 4, 2] \<and>
   mset [4, 4, 2 :: nat] \<noteq> mset [4, 3, 3]"
  by code_simp


section \<open>Facts about the item pipeline\<close>

lemma itemOf_update [simp]:
  "itemOf (p\<lparr>sizeInKB := a\<rparr>) = itemOf p"
  "itemOf (p\<lparr>error := b\<rparr>) = itemOf p"
  "itemOf (p\<lparr>fontsToSwap := c\<rparr>) = itemOf p"
  "itemOf (p\<lparr>rendered := d\<rparr>) = itemOf p"
  "itemOf (deleteIndex p) = itemOf p"
  by (simp_all add: itemOf_def deleteIndex_def)

lemma map_itemOf_deleteIndex [simp]: "map itemOf (map deleteIndex ps) = map itemOf ps"
  by (induction ps) simp_all

lemma image_mset_itemOf_deleteIndex [simp]:
  "image_mset itemOf (image_mset deleteIndex M) = image_mset itemOf M"
  by (simp add: multiset.map_comp comp_def)


lemma takeOut_length:
  "takeOut k ps = Some (q, qs) \<Longrightarrow> length ps = Suc (length qs)"
  by (induction ps arbitrary: q qs) (auto split: if_splits option.splits)

lemma takeOut_None: "takeOut k ps = None \<longleftrightarrow> k \<notin> oid ` set ps"
  by (induction ps) (auto split: if_splits option.splits)

lemma thumbURL_nonempty:
  "openProjectAndGenerateThumbnail pg u = Inr (Thumbnail t) \<Longrightarrow> thumbURL t \<noteq> []"
  by (auto simp: openProjectAndGenerateThumbnail_def
           split: if_splits sum.splits option.splits prod.splits)









subsection \<open>One open call at a time; nothing is left when the promise resolves\<close>

lemma serial_init: "serial (init urlsToProcess)"
  by (simp add: serial_def init_def)

lemma serial_preloadNextURL: "serial (preloadNextURL s) = serial s"
  by (simp add: serial_def preloadNextURL_def split: list.splits)

lemma serial_finish: "serial (finish h s) = serial s"
  by (simp add: serial_def finish_def Let_def split: option.splits)

lemma serial_openNextProject: "serial s \<Longrightarrow> serial (openNextProject h s)"
  by (auto simp: openNextProject_def serial_finish split: list.splits)
     (auto simp: serial_def)

lemma takeOut_short:
  "takeOut k ps = Some (q, qs) \<Longrightarrow> length ps \<le> 1 \<Longrightarrow> qs = []"
  by (drule takeOut_length) simp

lemma serial_preloadSettled:
  assumes "preloadSettled h k s = Some s'" and "serial s"
  shows "serial s'"
proof -
  from assms(1) obtain project rest where t: "takeOut k (loadingProjects s) = Some (project, rest)"
    by (auto simp: preloadSettled_def split: option.splits)
  define s1 where "s1 = (case fst (preloadRequest h k) of
                       Inr blobSize \<Rightarrow>
                         s\<lparr>loadingProjects := rest,
                            preloadedProjects := preloadedProjects s @
                              [project\<lparr>sizeInKB := Some (roundKB blobSize)\<rparr>]\<rparr>
                     | Inl e \<Rightarrow>
                         s\<lparr>loadingProjects := rest,
                            missingProjects := missingProjects s @
                              [project\<lparr>error := Some e\<rparr>]\<rparr>)"
  have s': "s' = preloadNextURL (openNextProject h s1)"
    using assms(1) t by (simp add: preloadSettled_def s1_def Let_def)
  have "serial s1" using assms(2) by (simp add: s1_def serial_def split: sum.splits)
  then show ?thesis by (simp add: s' serial_preloadNextURL serial_openNextProject)
qed

lemma openSettled_cases:
  assumes "openSettled h k s = Some s'"
  obtains project rest s4 where
    "takeOut k (openingCalls s) = Some (project, rest)"
    "s' = openNextProject h s4"
    "s4 = (case openProjectAndGenerateThumbnail (page h k) (url project) of
        Inl e \<Rightarrow> s\<lparr>openingCalls := rest,
                   unopenedProjects := unopenedProjects s @ [project\<lparr>error := Some e\<rparr>],
                   isOpeningProject := False\<rparr>
      | Inr (FontsToSwap fonts) \<Rightarrow>
          s\<lparr>openingCalls := rest, isOpeningProject := False,
            fontSwapProjects := fontSwapProjects s @ [project\<lparr>fontsToSwap := Some fonts\<rparr>]\<rparr>
      | Inr (Thumbnail th) \<Rightarrow>
          s\<lparr>openingCalls := rest, isOpeningProject := False,
            openedProjects := openedProjects s @ [project\<lparr>rendered := Some th\<rparr>]\<rparr>)"
proof -
  from assms obtain project rest where t: "takeOut k (openingCalls s) = Some (project, rest)"
    by (auto simp: openSettled_def split: option.splits)
  define r where "r = openProjectAndGenerateThumbnail (page h k) (url project)"
  have nonempty: "thumbURL th \<noteq> []" if "r = Inr (Thumbnail th)" for th
    using that unfolding r_def by (rule thumbURL_nonempty)
  have "s' = openNextProject h (case r of
        Inl e \<Rightarrow> s\<lparr>openingCalls := rest,
                   unopenedProjects := unopenedProjects s @ [project\<lparr>error := Some e\<rparr>],
                   isOpeningProject := False\<rparr>
      | Inr (FontsToSwap fonts) \<Rightarrow>
          s\<lparr>openingCalls := rest, isOpeningProject := False,
            fontSwapProjects := fontSwapProjects s @ [project\<lparr>fontsToSwap := Some fonts\<rparr>]\<rparr>
      | Inr (Thumbnail th) \<Rightarrow>
          s\<lparr>openingCalls := rest, isOpeningProject := False,
            openedProjects := openedProjects s @ [project\<lparr>rendered := Some th\<rparr>]\<rparr>)"
    using assms t nonempty
    by (auto simp: openSettled_def r_def [symmetric] Let_def
             split: sum.splits open_result.splits)
  then show ?thesis using t that unfolding r_def by blast
qed


lemma serial_openSettled:
  assumes "openSettled h k s = Some s'" and "serial s"
  shows "serial s'"
proof -
  from assms(1) obtain project rest s4 where
    t: "takeOut k (openingCalls s) = Some (project, rest)" and
    s': "s' = openNextProject h s4" and
    s4: "s4 = (case openProjectAndGenerateThumbnail (page h k) (url project) of
        Inl e \<Rightarrow> s\<lparr>openingCalls := rest,
                   unopenedProjects := unopenedProjects s @ [project\<lparr>error := Some e\<rparr>],
                   isOpeningProject := False\<rparr>
      | Inr (FontsToSwap fonts) \<Rightarrow>
          s\<lparr>openingCalls := rest, isOpeningProject := False,
            fontSwapProjects := fontSwapProjects s @ [project\<lparr>fontsToSwap := Some fonts\<rparr>]\<rparr>
      | Inr (Thumbnail th) \<Rightarrow>
          s\<lparr>openingCalls := rest, isOpeningProject := False,
            openedProjects := openedProjects s @ [project\<lparr>rendered := Some th\<rparr>]\<rparr>)"
    by (rule openSettled_cases)
  have "rest = []" using t assms(2) by (auto simp: serial_def dest: takeOut_short)
  then have "serial s4"
    by (simp add: s4 serial_def split: sum.splits open_result.splits)
  then show ?thesis by (simp add: s' serial_openNextProject)
qed

lemma serial_step: "step h ev s = Some s' \<Longrightarrow> serial s \<Longrightarrow> serial s'"
  by (cases ev)
     (auto simp: step_def serial_preloadNextURL serial_preloadSettled serial_openSettled
           split: if_splits, simp add: serial_def)

lemma serial_run: "run h evs s = Some s' \<Longrightarrow> serial s \<Longrightarrow> serial s'"
  by (induction evs arbitrary: s) (auto split: option.splits dest: serial_step)

lemma deleteIndex_idem [simp]: "deleteIndex (deleteIndex p) = deleteIndex p"
  by (simp add: deleteIndex_def)

lemma map_deleteIndex_idem [simp]: "map deleteIndex (map deleteIndex ps) = map deleteIndex ps"
  by (induction ps) simp_all









subsection \<open>The report accounts for every reference\<close>

lemma itemOf_comp_deleteIndex [simp]: "itemOf \<circ> deleteIndex = itemOf"
  by (rule ext) simp












text \<open>
  Claim C6. In every state the pipeline of a session can reach, after any sequence
  of timer callbacks, preload settlements and open settlements, at most one call
  of \<^verbatim>\<open>openProjectAndGenerateThumbnail\<close> has not settled, the flag
  \<^verbatim>\<open>isOpeningProject\<close> says whether there is one, and while there is one
  \<^verbatim>\<open>openNextProject\<close> starts nothing.
\<close>

theorem one_open_call_at_a_time:
  assumes "run h evs (init urlsToProcess) = Some s"
  shows "length (openingCalls s) \<le> 1 \<and>
         (isOpeningProject s \<longleftrightarrow> openingCalls s \<noteq> []) \<and>
         (openingCalls s \<noteq> [] \<longrightarrow> openNextProject h s = s)"
proof -
  have "serial s" using assms serial_init by (rule serial_run)
  then show ?thesis by (auto simp: serial_def openNextProject_def)
qed

subsection \<open>The preload and its one retry\<close>



lemma deleteIndex_fields [simp]:
  "oid (deleteIndex p) = oid p"
  "error (deleteIndex p) = error p"
  "sizeInKB (deleteIndex p) = sizeInKB p"
  by (simp_all add: deleteIndex_def)

lemma failedTwice_iff:
  "failedTwice h p \<longleftrightarrow> (\<exists>e. fst (preloadRequest h (oid p)) = Inl e \<and> error p = Some e)"
  by (cases "fst (preloadRequest h (oid p))") (auto simp: failedTwice_def)

lemma loaded_iff:
  "loaded h p \<longleftrightarrow>
     (\<exists>b. fst (preloadRequest h (oid p)) = Inr b \<and> sizeInKB p = Some (roundKB b))"
  by (cases "fst (preloadRequest h (oid p))") (auto simp: loaded_def)

lemma failedTwice_deleteIndex [simp]: "failedTwice h (deleteIndex p) = failedTwice h p"
  by (simp add: failedTwice_iff)

lemma loaded_deleteIndex [simp]: "loaded h (deleteIndex p) = loaded h p"
  by (simp add: loaded_iff)

lemma loaded_update [simp]:
  "loaded h (p\<lparr>error := a\<rparr>) = loaded h p"
  "loaded h (p\<lparr>fontsToSwap := b\<rparr>) = loaded h p"
  "loaded h (p\<lparr>rendered := c\<rparr>) = loaded h p"
  by (simp_all add: loaded_iff)













subsection \<open>A request run to the end\<close>






text \<open>The theorem of C6 in the first session, while its first project is open.\<close>

theorem one_open_call_at_a_time_witness:
  "\<exists>s. run exampleHost (take 4 exampleEvents) (init exampleShard) = Some s \<and>
       length (openingCalls s) = 1 \<and> isOpeningProject s \<and>
       openNextProject exampleHost s = s"
proof -
  define s where "s = the (run exampleHost (take 4 exampleEvents) (init exampleShard))"
  have r: "run exampleHost (take 4 exampleEvents) (init exampleShard) = Some s"
    unfolding s_def by code_simp
  have o: "length (openingCalls s) = 1" unfolding s_def by code_simp
  from one_open_call_at_a_time [OF r] o
  have "isOpeningProject s \<and> openNextProject exampleHost s = s" by auto
  with r o show ?thesis by blast
qed



section \<open>Facts about the endpoint\<close>

subsection \<open>The size of a request\<close>

lemma showNat_225: "showNat 225 = ''225''" by code_simp
lemma showNat_75: "showNat 75 = ''75''" by code_simp

lemma admission_unfold:
  "admission running urls =
     (if running then Some (503, ''Already running, please wait.'')
      else if 225 < length urls then Some (400, ''Too many URLs. Limit = 225'')
      else None)"
  by (simp add: admission_def maxChromeInstances_def maxBatchSize_def showNat_225)

lemma admissionSingle_unfold:
  "admissionSingle active urls =
     (if 3 \<le> active then Some (503, ''Too many active Chrome instances. Limit = 3'')
      else if 75 < length urls then Some (400, ''Too many URLs. Limit = 75'')
      else None)"
proof -
  have "showNat 3 = ''3''" by code_simp
  then show ?thesis
    by (simp add: admissionSingle_def maxChromeInstances_def maxBatchSize_def showNat_75)
qed

lemma extractEndpoint_rejected:
  "admission (isRunning st) rawURLs = Some (status, message) \<Longrightarrow>
   extractEndpoint w st rawURLs = (st, Replied status (ErrorBody message))"
  by (simp add: extractEndpoint_def)

lemma extractEndpoint_admitted_not_400:
  assumes "admission (isRunning st) rawURLs = None"
  shows "snd (extractEndpoint w st rawURLs) \<noteq> Replied 400 b"
  using assms
  by (auto simp: extractEndpoint_def Let_def split: promise.splits prod.splits sum.splits)

text \<open>
  Claim C8, as amended. The batch coordinator answers 400 "Too many URLs. Limit =
  225" exactly when no batch is running and the request holds more than
  \<open>maxChromeInstances * maxBatchSize = 225\<close> references; while a batch is running
  every request is answered 503 "Already running", whatever its size; a request of
  at most 225 references that arrives while no batch is running passes both guards.
  The single-instance endpoint (\<^verbatim>\<open>endpoints/extract.js\<close>) bounds a request by
  \<open>maxBatchSize = 75\<close>, once the count of active instances is below 3.
\<close>

theorem batch_too_large:
  "((\<exists>st'. extractEndpoint w st rawURLs =
             (st', Replied 400 (ErrorBody ''Too many URLs. Limit = 225'')))
      \<longleftrightarrow> \<not> isRunning st \<and> maxChromeInstances * maxBatchSize < length rawURLs) \<and>
   maxChromeInstances * maxBatchSize = 225 \<and>
   (isRunning st \<longrightarrow>
      extractEndpoint w st rawURLs = (st, Replied 503 (ErrorBody ''Already running, please wait.''))) \<and>
   (\<not> isRunning st \<and> length rawURLs \<le> 225 \<longrightarrow> admission (isRunning st) rawURLs = None) \<and>
   (admissionSingle active rawURLs = Some (400, ''Too many URLs. Limit = 75'')
      \<longleftrightarrow> active < maxChromeInstances \<and> maxBatchSize < length rawURLs)"
proof -
  have a: "(\<exists>st'. extractEndpoint w st rawURLs =
             (st', Replied 400 (ErrorBody ''Too many URLs. Limit = 225'')))
      \<longleftrightarrow> \<not> isRunning st \<and> 225 < length rawURLs"
  proof (cases "admission (isRunning st) rawURLs")
    case None
    then have "\<not> (\<not> isRunning st \<and> 225 < length rawURLs)"
      by (auto simp: admission_unfold split: if_splits)
    moreover have "\<not> (\<exists>st'. extractEndpoint w st rawURLs =
             (st', Replied 400 (ErrorBody ''Too many URLs. Limit = 225'')))"
      using extractEndpoint_admitted_not_400 [OF None, of w] by (metis snd_conv)
    ultimately show ?thesis by simp
  next
    case (Some x)
    obtain status message where x: "x = (status, message)" by (cases x)
    show ?thesis
      using Some x extractEndpoint_rejected [of st rawURLs status message w]
      by (auto simp: admission_unfold split: if_splits)
  qed
  show ?thesis
    unfolding a
    by (auto simp: maxChromeInstances_def maxBatchSize_def admission_unfold
                   admissionSingle_unfold extractEndpoint_rejected)
qed

text \<open>The theorem of C8 at requests of 226, 225 and one reference.\<close>

theorem batch_too_large_witness:
  "\<not> isRunning idleServer \<and> 225 < length (replicate 226 ''a.bfd'') \<and>
   (\<exists>st'. extractEndpoint fontWorld idleServer (replicate 226 ''a.bfd'') =
           (st', Replied 400 (ErrorBody ''Too many URLs. Limit = 225''))) \<and>
   length (replicate 225 ''a.bfd'') \<le> 225 \<and>
   admission (isRunning idleServer) (replicate 225 ''a.bfd'') = None \<and>
   isRunning busyServer \<and>
   extractEndpoint fontWorld busyServer [''a.bfd''] =
     (busyServer, Replied 503 (ErrorBody ''Already running, please wait.''))"
  using batch_too_large [of fontWorld idleServer "replicate 226 ''a.bfd''" 0]
        batch_too_large [of fontWorld idleServer "replicate 225 ''a.bfd''" 0]
        batch_too_large [of fontWorld busyServer "[''a.bfd'']" 0]
  by (simp add: idleServer_def busyServer_def)

text \<open>
  Claim C8 as stated fails: 226 references submitted while a batch is running are
  rejected as already running, not as too large; and the single-instance endpoint
  rejects 76 references, which is below 225.
\<close>

theorem oversized_request_while_running:
  "225 < length (replicate 226 ''a.bfd'') \<and>
   extractEndpoint fontWorld busyServer (replicate 226 ''a.bfd'') =
     (busyServer, Replied 503 (ErrorBody ''Already running, please wait.'')) \<and>
   length (replicate 76 ''a.bfd'') \<le> 225 \<and>
   admissionSingle 0 (replicate 76 ''a.bfd'') = Some (400, ''Too many URLs. Limit = 75'')"
  by (simp add: extractEndpoint_def admission_unfold admissionSingle_unfold busyServer_def)

subsection \<open>The two logs\<close>

lemma fontWorld_run:
  "promiseAll (map (\<lambda>(ident, urlsInBatch). runBatch fontWorld ident urlsInBatch)
                   (batches (rnd fontWorld) (admittedURLs [''c.bfd'']))) = Resolved [fontReport]"
  by code_simp

lemma writeLogs_cases:
  assumes "collectFonts (fontSwap res) = Inr fonts"
  shows "writeLogs w st res =
     (if fonts \<noteq> [] \<and> fontsWriteError w \<noteq> None then (st, Inl (the (fontsWriteError w)))
      else if map thumbURLOf (filter hasMismatch (opened res)) \<noteq> [] \<and>
              transparencyWriteError w \<noteq> None
      then (st\<lparr>fontsCsv := (if fonts \<noteq> [] then fontsCsv st @ join [CHR 0x0A] fonts @ [CHR 0x0A]
                              else fontsCsv st)\<rparr>,
            Inl (the (transparencyWriteError w)))
      else (st\<lparr>fontsCsv := (if fonts \<noteq> [] then fontsCsv st @ join [CHR 0x0A] fonts @ [CHR 0x0A]
                              else fontsCsv st),
               transparencyCsv :=
                 (if map thumbURLOf (filter hasMismatch (opened res)) \<noteq> []
                  then transparencyCsv st @
                       join [CHR 0x0A] (map thumbURLOf (filter hasMismatch (opened res))) @ [CHR 0x0A]
                  else transparencyCsv st)\<rparr>,
            Inr (res\<lparr>opened := map deleteMismatch (opened res)\<rparr>)))"
  using assms
  by (auto simp: writeLogs_def appendFileSync_def Let_def split: option.splits)

text \<open>
  Claim C9, as amended. The request is admitted and all its batches have resolved.
  Each log is written before the reply is sent, and only when it has an entry. If
  the write to the font log throws, the handler ends with that exception; so it
  does if the write to the transparency log throws; the report is sent, with status
  200 and the four lists of the combined result, exactly when no attempted write
  throws.
\<close>

theorem log_write_failure_ends_the_handler:
  assumes "admission (isRunning st) rawURLs = None"
    and "promiseAll (map (\<lambda>(ident, urlsInBatch). runBatch w ident urlsInBatch)
                         (batches (rnd w) (admittedURLs rawURLs))) = Resolved allResults"
    and "collectFonts (concat (map fontSwap allResults)) = Inr fonts"
  shows "(fonts \<noteq> [] \<and> fontsWriteError w = Some e \<longrightarrow>
            snd (extractEndpoint w st rawURLs) = Threw e) \<and>
         ((fonts = [] \<or> fontsWriteError w = None) \<and>
          filter hasMismatch (concat (map opened allResults)) \<noteq> [] \<and>
          transparencyWriteError w = Some e \<longrightarrow>
            snd (extractEndpoint w st rawURLs) = Threw e) \<and>
         ((fonts = [] \<or> fontsWriteError w = None) \<and>
          (filter hasMismatch (concat (map opened allResults)) = [] \<or>
           transparencyWriteError w = None) \<longrightarrow>
            (\<exists>res. snd (extractEndpoint w st rawURLs) = Replied 200 (ReportBody res) \<and>
                   opened res = map deleteMismatch (concat (map opened allResults)) \<and>
                   missing res = concat (map missing allResults) \<and>
                   fontSwap res = concat (map fontSwap allResults) \<and>
                   unopened res = concat (map unopened allResults)))"
proof -
  define res where "res = (combineResults allResults)
      \<lparr>result := markTimedOut (timedOut w)
         (batchResultText w (length (opened (combineResults allResults)))
            (length (admittedURLs rawURLs)) (length allResults))\<rparr>"
  have f: "collectFonts (fontSwap res) = Inr fonts"
    using assms(3) by (simp add: res_def combineResults_def)
  have o: "opened res = concat (map opened allResults)"
    "missing res = concat (map missing allResults)"
    "fontSwap res = concat (map fontSwap allResults)"
    "unopened res = concat (map unopened allResults)"
    by (simp_all add: res_def combineResults_def)
  have e: "extractEndpoint w st rawURLs =
     (case writeLogs w (st\<lparr>isRunning := True\<rparr>) res of
        (st2, Inl e) \<Rightarrow> (st2, Threw e)
      | (st2, Inr sentResult) \<Rightarrow>
          (st2\<lparr>isRunning := False\<rparr>, Replied 200 (ReportBody sentResult)))"
    using assms(1,2) by (simp add: extractEndpoint_def Let_def res_def)
  show ?thesis
    unfolding e writeLogs_cases [OF f] using o by auto
qed

text \<open>
  Claim C9 as stated fails: the only batch of the request completes with a
  font-swap project, the write to the font log throws, and the handler ends with
  the exception instead of sending the report.
\<close>

theorem font_log_failure_loses_the_report:
  "promiseAll (map (\<lambda>(ident, urlsInBatch). runBatch fontWorld ident urlsInBatch)
                   (batches (rnd fontWorld) (admittedURLs [''c.bfd'']))) = Resolved [fontReport] \<and>
   extractEndpoint (fontWorld\<lparr>fontsWriteError := Some ''EACCES: permission denied''\<rparr>)
                   idleServer [''c.bfd'']
     = (idleServer\<lparr>isRunning := True\<rparr>, Threw ''EACCES: permission denied'')"
  by code_simp

text \<open>The theorem of C9 at that request, with and without the failing write.\<close>

theorem log_write_failure_ends_the_handler_witness:
  "admission (isRunning idleServer) [''c.bfd''] = None \<and>
   promiseAll (map (\<lambda>(ident, urlsInBatch).
                      runBatch (fontWorld\<lparr>fontsWriteError := Some ''EACCES''\<rparr>) ident urlsInBatch)
                   (batches (rnd (fontWorld\<lparr>fontsWriteError := Some ''EACCES''\<rparr>))
                            (admittedURLs [''c.bfd'']))) = Resolved [fontReport] \<and>
   collectFonts (concat (map fontSwap [fontReport])) = Inr [''Arial'', ''Futura''] \<and>
   fontsWriteError (fontWorld\<lparr>fontsWriteError := Some ''EACCES''\<rparr>) = Some ''EACCES'' \<and>
   snd (extractEndpoint (fontWorld\<lparr>fontsWriteError := Some ''EACCES''\<rparr>) idleServer [''c.bfd''])
     = Threw ''EACCES'' \<and>
   fontsWriteError fontWorld = None \<and> transparencyWriteError fontWorld = None \<and>
   (\<exists>res. snd (extractEndpoint fontWorld idleServer [''c.bfd'']) = Replied 200 (ReportBody res) \<and>
          fontSwap res = fontSwap fontReport)"
proof -
  have a: "admission (isRunning idleServer) [''c.bfd''] = None"
    by (simp add: admission_unfold idleServer_def)
  have p: "promiseAll (map (\<lambda>(ident, urlsInBatch).
                      runBatch (fontWorld\<lparr>fontsWriteError := Some ''EACCES''\<rparr>) ident urlsInBatch)
                   (batches (rnd (fontWorld\<lparr>fontsWriteError := Some ''EACCES''\<rparr>))
                            (admittedURLs [''c.bfd'']))) = Resolved [fontReport]"
    using fontWorld_run by simp
  have c: "collectFonts (concat (map fontSwap [fontReport])) = Inr [''Arial'', ''Futura'']"
    by (simp add: fontReport_def)
  have n: "fontsWriteError fontWorld = None" "transparencyWriteError fontWorld = None"
    by (simp_all add: fontWorld_def)
  have h: "filter hasMismatch (concat (map opened [fontReport])) = []"
    by (simp add: fontReport_def)
  from log_write_failure_ends_the_handler [OF a p c, of "''EACCES''"]
  have bad: "snd (extractEndpoint (fontWorld\<lparr>fontsWriteError := Some ''EACCES''\<rparr>) idleServer [''c.bfd''])
     = Threw ''EACCES''"
    by simp
  from log_write_failure_ends_the_handler [OF a fontWorld_run c, of "''EACCES''"] n h
  have good: "\<exists>res. snd (extractEndpoint fontWorld idleServer [''c.bfd'']) = Replied 200 (ReportBody res) \<and>
          fontSwap res = fontSwap fontReport"
    by auto
  show ?thesis using a p c n bad good by simp
qed

subsection \<open>The flag \<^verbatim>\<open>isRunning\<close>\<close>

text \<open>
  Whenever the handler replies, the flag is what it was before the request: a
  rejection never touches it, and a request that was admitted found it false and
  leaves it false. When the handler ends with an exception, the flag stays set.
\<close>

lemma flag_after_reply:
  assumes "extractEndpoint w st rawURLs = (st', Replied status b)"
  shows "isRunning st' = isRunning st"
proof (cases "admission (isRunning st) rawURLs")
  case None
  then have "\<not> isRunning st" by (auto simp: admission_unfold split: if_splits)
  then show ?thesis using assms None
    by (auto simp: extractEndpoint_def Let_def split: promise.splits prod.splits sum.splits)
next
  case (Some x)
  then show ?thesis using assms by (cases x) (simp add: extractEndpoint_def)
qed

lemma writeLogs_flag: "isRunning (fst (writeLogs w st res)) = isRunning st"
  by (auto simp: writeLogs_def appendFileSync_def Let_def split: sum.splits option.splits)

lemma flag_after_throw:
  assumes "extractEndpoint w st rawURLs = (st', Threw e)"
  shows "\<not> isRunning st \<and> isRunning st'"
proof (cases "admission (isRunning st) rawURLs")
  case None
  then have idle: "\<not> isRunning st" by (auto simp: admission_unfold split: if_splits)
  have "isRunning st'"
    using assms None writeLogs_flag [of w "st\<lparr>isRunning := True\<rparr>"]
    by (auto simp: extractEndpoint_def Let_def split: promise.splits prod.splits sum.splits)
       (metis fst_conv)
  with idle show ?thesis by simp
next
  case (Some x)
  then show ?thesis using assms by (cases x) (simp add: extractEndpoint_def)
qed

text \<open>
  Claim C10 fails on the exception path. The browser of the only batch cannot be
  launched, \<^verbatim>\<open>extractData\<close> rejects, the handler ends with that exception, and
  \<^verbatim>\<open>isRunning\<close> is still true: the next request, which meets a healthy host, is
  rejected as already running.
\<close>

theorem flag_stuck_after_launch_failure:
  "extractEndpoint crashWorld idleServer [''a.bfd''] =
     (idleServer\<lparr>isRunning := True\<rparr>, Threw ''browserType.launch: Failed to launch chromium'') \<and>
   extractEndpoint fontWorld (idleServer\<lparr>isRunning := True\<rparr>) [''b.bfd''] =
     (idleServer\<lparr>isRunning := True\<rparr>, Replied 503 (ErrorBody ''Already running, please wait.''))"
  by code_simp


section \<open>Facts about the deadline\<close>

lemma callExits_NoExit:
  "(ident, b) \<in> set runs \<Longrightarrow> exitFn b = NoExit \<Longrightarrow>
   callExits runs = Some ''TypeError: termination.exit is not a function''"
  by (induction runs) (auto split: exit_fn.splits)

lemma callExits_EmptyExit:
  "\<forall>(ident, b) \<in> set runs. exitFn b = EmptyExit \<Longrightarrow> callExits runs = None"
  by (induction runs) (auto split: exit_fn.splits)

lemma unsettled_entry:
  "unsettled runs \<noteq> [] \<Longrightarrow> \<exists>ident b. (ident, b) \<in> set runs \<and> \<not> settled b"
  unfolding unsettled_def by (induction runs) (auto split: if_splits)

lemma updateRun_entry:
  assumes "(i, b') \<in> set (updateRun ident f runs)"
  obtains b where "(i, b) \<in> set runs" and "b' = (if i = ident then f b else b)"
  using assms unfolding updateRun_def by auto

lemma coordInv_entry:
  "coordInv c \<Longrightarrow> (ident, b) \<in> set (batchRuns c) \<Longrightarrow> settled b = (exitFn b = EmptyExit)"
  by (auto simp: coordInv_def)

lemma coordInv_start: "coordInv (startBatches instanceIDs)"
  by (cases instanceIDs) (auto simp: coordInv_def startBatches_def unsettled_def)

lemma coordInv_step:
  assumes "coordInv c" and "coordStep ev c = Some c'"
  shows "coordInv c'"
proof (cases ev)
  case (Resolves ident)
  define runs where
    "runs = updateRun ident (\<lambda>b. b\<lparr>settled := True, exitFn := EmptyExit\<rparr>) (batchRuns c)"
  have c': "c' = c\<lparr>batchRuns := runs, timerArmed := (timerArmed c \<and> unsettled runs \<noteq> [])\<rparr>"
    using assms(2) Resolves by (simp add: coordStep_def runs_def Let_def split: if_splits)
  have "settled b' = (exitFn b' = EmptyExit)" if "(i, b') \<in> set runs" for i b'
  proof -
    from that obtain b where b: "(i, b) \<in> set (batchRuns c)"
      and b': "b' = (if i = ident then b\<lparr>settled := True, exitFn := EmptyExit\<rparr> else b)"
      unfolding runs_def by (rule updateRun_entry)
    show ?thesis using coordInv_entry [OF assms(1) b] b' by simp
  qed
  then show ?thesis by (auto simp: coordInv_def c')
next
  case Deadline
  then show ?thesis
    using assms by (auto simp: coordInv_def coordStep_def split: if_splits)
qed

lemma coordInv_run:
  "coordInv c \<Longrightarrow> coordRun evs c = Some c' \<Longrightarrow> coordInv c'"
proof (induction evs arbitrary: c)
  case Nil
  then show ?case by simp
next
  case (Cons ev evs)
  then show ?case
    by (auto split: option.splits dest: coordInv_step)
qed

text \<open>
  A pipeline whose promise has resolved has the empty \<^verbatim>\<open>exit\<close>, in every state the
  coordinator can reach; calling it releases nothing a second time.
\<close>

lemma resolved_pipeline_disarmed:
  assumes "coordRun evs (startBatches instanceIDs) = Some c"
    and "(ident, b) \<in> set (batchRuns c)" and "settled b"
  shows "exitFn b = EmptyExit"
  using coordInv_entry [OF coordInv_run [OF coordInv_start assms(1)] assms(2)] assms(3)
  by simp

text \<open>
  Claim C7 fails on the code. The timer fires while a pipeline is still running,
  in any state the coordinator can reach. The callback sets \<^verbatim>\<open>timedOut\<close> and then
  throws a \<^verbatim>\<open>TypeError\<close>: no pipeline that is still running has an \<^verbatim>\<open>exit\<close> to call,
  since \<^verbatim>\<open>extract-data.js\<close> never stores one, so none of them is told to terminate.
\<close>

theorem deadline_throws_before_signalling:
  assumes "coordRun evs (startBatches instanceIDs) = Some c"
    and "timerArmed c"
  shows "coordStep Deadline c =
           Some (c\<lparr>timerFired := True, timerArmed := False,
                   uncaught := Some ''TypeError: termination.exit is not a function''\<rparr>) \<and>
         unsettled (batchRuns c) \<noteq> [] \<and>
         (\<forall>(ident, b) \<in> set (batchRuns c). \<not> settled b \<longrightarrow> exitFn b = NoExit)"
proof -
  have inv: "coordInv c" using coordInv_start assms(1) by (rule coordInv_run)
  have running: "unsettled (batchRuns c) \<noteq> []"
    using inv assms(2) by (simp add: coordInv_def)
  have none: "exitFn b = NoExit" if "(ident, b) \<in> set (batchRuns c)" and "\<not> settled b" for ident b
  proof -
    have "settled b = (exitFn b = EmptyExit)" using inv that(1) by (rule coordInv_entry)
    then show ?thesis using that(2) by (cases "exitFn b") auto
  qed
  from unsettled_entry [OF running]
  obtain ident b where "(ident, b) \<in> set (batchRuns c)" and "\<not> settled b" by blast
  then have "callExits (batchRuns c) = Some ''TypeError: termination.exit is not a function''"
    using none callExits_NoExit by blast
  then have "coordStep Deadline c =
           Some (c\<lparr>timerFired := True, timerArmed := False,
                   uncaught := Some ''TypeError: termination.exit is not a function''\<rparr>)"
    using assms(2) by (simp add: coordStep_def)
  then show ?thesis using running none by auto
qed

text \<open>
  The theorem of C7 at a request for two designs: the first pipeline has resolved,
  the second is still running when the timer fires.
\<close>

theorem deadline_throws_before_signalling_witness:
  "coordRun [Resolves ''abc 1 abc'']
     (startBatches (map fst (batches (\<lambda>k. ''abc'') (admittedURLs lateRequest)))) =
     Some \<lparr>batchRuns = [(''abc 1 abc'', \<lparr>exitFn = EmptyExit, settled = True\<rparr>),
                        (''abc 2 abc'', \<lparr>exitFn = NoExit, settled = False\<rparr>)],
           timerFired = False, timerArmed = True, uncaught = None\<rparr> \<and>
   coordStep Deadline
     \<lparr>batchRuns = [(''abc 1 abc'', \<lparr>exitFn = EmptyExit, settled = True\<rparr>),
                   (''abc 2 abc'', \<lparr>exitFn = NoExit, settled = False\<rparr>)],
      timerFired = False, timerArmed = True, uncaught = None\<rparr> =
     Some \<lparr>batchRuns = [(''abc 1 abc'', \<lparr>exitFn = EmptyExit, settled = True\<rparr>),
                        (''abc 2 abc'', \<lparr>exitFn = NoExit, settled = False\<rparr>)],
           timerFired = True, timerArmed = False,
           uncaught = Some ''TypeError: termination.exit is not a function''\<rparr> \<and>
   unsettled [(''abc 1 abc'', \<lparr>exitFn = EmptyExit, settled = True\<rparr>),
              (''abc 2 abc'', \<lparr>exitFn = NoExit, settled = False\<rparr>)] = [''abc 2 abc'']"
proof -
  have r: "coordRun [Resolves ''abc 1 abc'']
     (startBatches (map fst (batches (\<lambda>k. ''abc'') (admittedURLs lateRequest)))) =
     Some \<lparr>batchRuns = [(''abc 1 abc'', \<lparr>exitFn = EmptyExit, settled = True\<rparr>),
                        (''abc 2 abc'', \<lparr>exitFn = NoExit, settled = False\<rparr>)],
           timerFired = False, timerArmed = True, uncaught = None\<rparr>"
    by code_simp
  have u: "unsettled [(''abc 1 abc'', \<lparr>exitFn = EmptyExit, settled = True\<rparr>),
              (''abc 2 abc'', \<lparr>exitFn = NoExit, settled = False\<rparr>)] = [''abc 2 abc'']"
    by code_simp
  show ?thesis
    using deadline_throws_before_signalling [OF r] r u by simp
qed


end
